theory Spec2Isabelle
  imports Main "HOL-Library.AList" "HOL-Library.Sublist"
begin

section \<open>Data model of package pkgbuild\<close>

text \<open>
  The integer tags of the Go code (\<open>TD_*\<close> for data, \<open>TC_*\<close> for containers, \<open>TU_*\<close> for
  the rendering styles) are declared outside the file under verification; the names below
  are the ones the file uses. They are taken to be pairwise distinct, one datatype per
  family. \<open>TD_BLANKCOMMENT\<close> stands for every line tag that reaches the \<open>default:\<close> branch
  of \<open>NewContainer\<close>, and \<open>TU_LINES\<close> for every style that reaches the \<open>default:\<close> branch of
  \<open>Container.Lines\<close>.
\<close>

datatype data_type = TD_VARIABLE | TD_FUNC | TD_UNKNOWN | TD_BLANKCOMMENT

datatype container_type =
  TC_VARIABLE | TC_UVARIABLE | TC_FUNCTION | TC_SFUNCTION | TC_UFUNCTION
  | TC_UNKNOWN | TC_BLANKCOMMENT

datatype unparse_type =
  TU_SINGLEVAR | TU_SINGLEVARQ | TU_OPTIONAL | TU_OPTIONALQ
  | TU_MULTIPLEVAR | TU_MULTIPLEVARQ | TU_MULTIPLELINES | TU_LINES

text \<open>\<open>type Data struct { Type int; Value string; Line int }\<close>. The field \<open>Type\<close> of
  \<open>Data\<close> is called \<open>DType\<close> here, since \<open>Container\<close> has a field of the same name.\<close>

record Data =
  DType :: data_type
  Value :: string
  Line :: int

text \<open>\<open>type Container struct { Type int; Name string; Begin, End int; Values []*Data }\<close>.
  Every \<open>*Data\<close> is created by \<open>NewData\<close> inside \<open>Append\<close> and belongs to one container,
  so the values are kept by value.\<close>

record Container =
  Type :: container_type
  Name :: string
  Begin :: int
  End :: int
  Values :: "Data list"

text \<open>\<open>type Pkgbuild map[string][]*Container\<close>: an association list with one entry per
  key. The order of its entries is the order in which a \<open>range\<close> over the map happens to
  visit the keys; Go leaves that order open, and no theorem below depends on it.\<close>

type_synonym Pkgbuild = "(string \<times> Container list) list"

definition NewData :: "data_type \<Rightarrow> string \<Rightarrow> int \<Rightarrow> Data" where
  "NewData t v l = \<lparr>DType = t, Value = v, Line = l\<rparr>"

definition NewPkgbuild :: Pkgbuild where
  "NewPkgbuild = []"

section \<open>Modification\<close>


text \<open>\<open>func (c *Container) Set(idx int, v string) bool\<close>: the updated receiver and the
  returned flag. \<open>append(c.Values[:idx], c.Values[idx+1:]...)\<close> is the sequence without
  position \<open>idx\<close>.\<close>

definition Container_Set :: "Container \<Rightarrow> int \<Rightarrow> string \<Rightarrow> Container \<times> bool" where
  "Container_Set c idx v =
     (if idx < 0 \<or> idx \<ge> int (length (Values c)) then (c, False)
      else if v = []
        then (c\<lparr>Values := take (nat idx) (Values c) @ drop (nat idx + 1) (Values c)\<rparr>, True)
        else (c\<lparr>Values := (Values c)[nat idx := (Values c ! nat idx)\<lparr>Value := v\<rparr>]\<rparr>, True))"

text \<open>\<open>func (p Pkgbuild) Insert(cont ...*Container)\<close>\<close>

fun Pkgbuild_Insert :: "Pkgbuild \<Rightarrow> Container list \<Rightarrow> Pkgbuild" where
  "Pkgbuild_Insert p [] = p"
| "Pkgbuild_Insert p (c # cont) =
     Pkgbuild_Insert
       (case map_of p (Name c) of
          Some lc \<Rightarrow> AList.update (Name c) (lc @ [c]) p
        | None \<Rightarrow> AList.update (Name c) [c] p)
       cont"

text \<open>\<open>func (p Pkgbuild) Remove(k string, i int) bool\<close>\<close>

definition Pkgbuild_Remove :: "Pkgbuild \<Rightarrow> string \<Rightarrow> int \<Rightarrow> Pkgbuild \<times> bool" where
  "Pkgbuild_Remove p k i =
     (case map_of p k of
        Some lc \<Rightarrow>
          if i \<ge> 0 \<and> i < int (length lc)
          then (AList.update k (take (nat i) lc @ drop (nat i + 1) lc) p, True)
          else (p, False)
      | None \<Rightarrow> (p, False))"

definition Container_Empty :: "Container \<Rightarrow> bool" where
  "Container_Empty c = (length (Values c) = 0)"

text \<open>The index expression \<open>p[k]\<close>: the list stored under \<open>k\<close>, the nil slice when the
  key is absent.\<close>

definition Pkgbuild_get :: "Pkgbuild \<Rightarrow> string \<Rightarrow> Container list" where
  "Pkgbuild_get p k = (case map_of p k of None \<Rightarrow> [] | Some lc \<Rightarrow> lc)"

text \<open>The invariant of the document: every container is stored under the key equal to
  its own name.\<close>

definition keyed_by_name :: "Pkgbuild \<Rightarrow> bool" where
  "keyed_by_name p = list_all (\<lambda>(k, lc). list_all (\<lambda>c. Name c = k) lc) p"

section \<open>Tables and helpers declared outside the file\<close>

text \<open>
  The file under verification uses tables and helper functions that the package declares
  elsewhere: the slices \<open>L_VARIABLES\<close> and \<open>L_FUNCTIONS\<close>, the map \<open>U_VARIABLES\<close>, and the
  functions \<open>lineType\<close>, \<open>splitString\<close>, \<open>quotify\<close> and \<open>joinData\<close>. They enter as the
  fields of an environment, and the theorems hold for every environment.
  \<open>U_VARIABLES\<close> is a total function: a Go map read at a missing key gives the zero
  value, which is one of the styles (or none of the seven named in \<open>Container.Lines\<close>, and
  then \<open>TU_LINES\<close> stands for it).
\<close>

record env =
  L_VARIABLES :: "string list"
  L_FUNCTIONS :: "string list"
  U_VARIABLES :: "string \<Rightarrow> unparse_type"
  lineType :: "string \<Rightarrow> data_type \<times> int \<times> string list"
  splitString :: "string \<Rightarrow> string list"
  quotify :: "string \<Rightarrow> string"
  joinData :: "Data list \<Rightarrow> bool \<Rightarrow> bool \<Rightarrow> string"

definition BLANK :: string where "BLANK = ''<blank>''"

section \<open>Constructors\<close>



section \<open>Unparsing a container\<close>

text \<open>\<open>func (d *Data) String() string\<close> and \<open>func (d *Data) Quote() string\<close>\<close>

definition Data_String :: "Data \<Rightarrow> string" where
  "Data_String d = Value d"

definition Data_Quote :: "env \<Rightarrow> Data \<Rightarrow> string" where
  "Data_Quote env d = quotify env (Value d)"

text \<open>\<open>func (c *Container) UnparseType() int\<close>\<close>

definition Container_UnparseType :: "env \<Rightarrow> Container \<Rightarrow> unparse_type" where
  "Container_UnparseType env c =
     (case Type c of
        TC_VARIABLE \<Rightarrow> U_VARIABLES env (Name c)
      | TC_UVARIABLE \<Rightarrow> TU_OPTIONALQ
      | _ \<Rightarrow> TU_LINES)"

text \<open>
  \<open>utf8.RuneCountInString\<close> of the Go library, on the bytes of the string: an ASCII byte
  is one rune, a well-formed sequence of two to four bytes is one rune, and every byte
  that does not start a well-formed sequence is one rune by itself. \<open>first_byte\<close> is the
  library's table \<open>first\<close>: the length of the sequence a leading byte announces and the
  range accepted for its second byte.
\<close>

definition first_byte :: "nat \<Rightarrow> (nat \<times> nat \<times> nat) option" where
  "first_byte b =
     (if 0xC2 \<le> b \<and> b \<le> 0xDF then Some (2, 0x80, 0xBF)
      else if b = 0xE0 then Some (3, 0xA0, 0xBF)
      else if 0xE1 \<le> b \<and> b \<le> 0xEC then Some (3, 0x80, 0xBF)
      else if b = 0xED then Some (3, 0x80, 0x9F)
      else if 0xEE \<le> b \<and> b \<le> 0xEF then Some (3, 0x80, 0xBF)
      else if b = 0xF0 then Some (4, 0x90, 0xBF)
      else if 0xF1 \<le> b \<and> b \<le> 0xF3 then Some (4, 0x80, 0xBF)
      else if b = 0xF4 then Some (4, 0x80, 0x8F)
      else None)"

definition rune_size :: "char \<Rightarrow> string \<Rightarrow> nat" where
  "rune_size c cs =
     (if (of_char c :: nat) < 0x80 then 1
      else case first_byte (of_char c) of
        None \<Rightarrow> 1
      | Some (sz, lo, hi) \<Rightarrow>
          if 1 + length cs < sz then 1
          else if (of_char (cs ! 0) :: nat) < lo \<or> hi < (of_char (cs ! 0) :: nat) then 1
          else if sz = 2 then 2
          else if (of_char (cs ! 1) :: nat) < 0x80 \<or> 0xBF < (of_char (cs ! 1) :: nat) then 1
          else if sz = 3 then 3
          else if (of_char (cs ! 2) :: nat) < 0x80 \<or> 0xBF < (of_char (cs ! 2) :: nat) then 1
          else 4)"

fun RuneCountInString :: "string \<Rightarrow> nat" where
  "RuneCountInString [] = 0"
| "RuneCountInString (c # cs) = Suc (RuneCountInString (drop (rune_size c cs - 1) cs))"

text \<open>The loop of the \<open>TU_MULTIPLELINES\<close> branch over \<open>c.Values[1:]\<close>: the state is the
  output so far and the pending line \<open>s\<close>; \<open>t\<close> is the indentation.\<close>

fun multiplelines_loop :: "env \<Rightarrow> string \<Rightarrow> Data list \<Rightarrow> string list \<times> string \<Rightarrow> string list \<times> string" where
  "multiplelines_loop env t [] (out, s) = (out, s)"
| "multiplelines_loop env t (d # ds) (out, s) =
     multiplelines_loop env t ds (out @ [s], t @ Data_Quote env d)"

text \<open>The loop of the \<open>default:\<close> branch: the state is the output so far and the flag
  \<open>blank\<close>.\<close>

fun lines_loop :: "Data list \<Rightarrow> string list \<times> bool \<Rightarrow> string list \<times> bool" where
  "lines_loop [] (out, blank) = (out, blank)"
| "lines_loop (d # ds) (out, blank) =
     (let l = Data_String d;
          out = (if l \<noteq> [] \<or> \<not> blank then out @ [l] else out)
      in lines_loop ds (out, l = []))"

text \<open>\<open>func (c *Container) Lines() []string\<close>\<close>

definition Container_Lines :: "env \<Rightarrow> Container \<Rightarrow> string list" where
  "Container_Lines env c =
     (let split = True; quote = True in
      case Container_UnparseType env c of
        TU_SINGLEVAR \<Rightarrow>
          (let s = joinData env (Values c) (\<not> split) (\<not> quote) in [Name c @ ''='' @ s])
      | TU_SINGLEVARQ \<Rightarrow>
          (let s = joinData env (Values c) (\<not> split) (\<not> quote) in [Name c @ ''='' @ quotify env s])
      | TU_OPTIONAL \<Rightarrow>
          if length (Values c) > 1
          then (let s = joinData env (Values c) split quote in [Name c @ ''=('' @ s @ '')''])
          else (let s = joinData env (Values c) (\<not> split) (\<not> quote) in [Name c @ ''='' @ s])
      | TU_OPTIONALQ \<Rightarrow>
          (let s = joinData env (Values c) split quote in
           if length (Values c) > 1 then [Name c @ ''=('' @ s @ '')''] else [Name c @ ''='' @ s])
      | TU_MULTIPLEVAR \<Rightarrow>
          (let s = joinData env (Values c) split (\<not> quote) in [Name c @ ''=('' @ s @ '')''])
      | TU_MULTIPLEVARQ \<Rightarrow>
          (let s = joinData env (Values c) split quote in [Name c @ ''=('' @ s @ '')''])
      | TU_MULTIPLELINES \<Rightarrow>
          (case Values c of
             d0 # rest \<Rightarrow>
               (let s = Name c @ ''=('';
                    t = replicate (RuneCountInString s) CHR '' '';
                    s = s @ Data_Quote env d0
                in case multiplelines_loop env t rest ([], s) of
                     (out, s) \<Rightarrow> out @ [s @ '')''])
           | [] \<Rightarrow> [Name c @ ''=()''])
      | TU_LINES \<Rightarrow> fst (lines_loop (Values c) ([], False)))"

text \<open>
  The verbatim style in the words of the specification: the text of every value, in
  sequence order, except a value whose text is empty and which immediately follows a
  value whose text is empty.
\<close>

definition verbatim_spec :: "Data list \<Rightarrow> string list" where
  "verbatim_spec vs =
     map (\<lambda>i. Value (vs ! i))
       (filter (\<lambda>i. \<not> (Value (vs ! i) = [] \<and> 0 < i \<and> Value (vs ! (i - 1)) = []))
          [0 ..< length vs])"

text \<open>
  The one-value-per-line style in the words of the specification: line \<open>j\<close> holds the
  quoted value \<open>j\<close>; the first line opens with \<open>name=(\<close>, every later line with as many
  spaces as the opening text is wide, and the last line ends with the closing parenthesis.
\<close>

definition multiplelines_spec :: "env \<Rightarrow> string \<Rightarrow> Data list \<Rightarrow> string list" where
  "multiplelines_spec env name vs =
     map (\<lambda>j. (if j = 0 then name @ ''=(''
                else replicate (RuneCountInString (name @ ''=('')) CHR '' '')
               @ quotify env (Value (vs ! j))
               @ (if j = length vs - 1 then '')'' else []))
       [0 ..< length vs]"

section \<open>Unparsing a container with helpers that may panic\<close>







text \<open>Sample values, used to instantiate the theorems below.\<close>

definition sample_data :: "string \<Rightarrow> Data" where
  "sample_data v = NewData TD_VARIABLE v 3"

definition sample_arch :: Container where
  "sample_arch = \<lparr>Type = TC_VARIABLE, Name = ''arch'', Begin = 3, End = 0,
     Values = [sample_data ''x86_64'', sample_data ''i686'']\<rparr>"

definition sample_pkgver :: Container where
  "sample_pkgver = \<lparr>Type = TC_VARIABLE, Name = ''pkgver'', Begin = 2, End = 0,
     Values = [NewData TD_VARIABLE ''1.0'' 2]\<rparr>"

definition sample_pkgrel :: Container where
  "sample_pkgrel = \<lparr>Type = TC_VARIABLE, Name = ''pkgrel'', Begin = 1, End = 0,
     Values = [NewData TD_VARIABLE ''1'' 1]\<rparr>"


definition sample_sums :: Container where
  "sample_sums = \<lparr>Type = TC_VARIABLE, Name = ''sha256sums'', Begin = 5, End = 0,
     Values = [NewData TD_VARIABLE ''aa'' 5, NewData TD_VARIABLE ''bb'' 5, NewData TD_VARIABLE ''cc'' 5]\<rparr>"

definition sample_blank :: Container where
  "sample_blank = \<lparr>Type = TC_BLANKCOMMENT, Name = BLANK, Begin = 6, End = 0,
     Values = [NewData TD_BLANKCOMMENT ''# a'' 6, NewData TD_BLANKCOMMENT [] 7,
               NewData TD_BLANKCOMMENT [] 8, NewData TD_BLANKCOMMENT ''# b'' 9]\<rparr>"

text \<open>
  Modelled from the spec: a sample environment, used only to instantiate the theorems.
  The helpers \<open>quotify\<close>, \<open>joinData\<close>, \<open>splitString\<close> and \<open>lineType\<close> and the three tables
  are declared outside the file. Here \<open>quotify\<close> puts its argument in double quotes,
  \<open>joinData\<close> separates the values by one space and quotes each when asked to,
  \<open>splitString\<close> keeps its argument whole, and \<open>lineType\<close> knows function headers of the
  shape \<open>name() {\<close> only; the style table gives \<open>arch\<close> the collapse-to-scalar style,
  \<open>license\<close> the always-parenthesized style and \<open>sha256sums\<close> the one-value-per-line style.
\<close>

definition sample_quotify :: "string \<Rightarrow> string" where
  "sample_quotify s = CHR 0x22 # s @ [CHR 0x22]"

fun join_with :: "string \<Rightarrow> string list \<Rightarrow> string" where
  "join_with sep [] = []"
| "join_with sep [x] = x"
| "join_with sep (x # y # ys) = x @ sep @ join_with sep (y # ys)"

definition sample_joinData :: "Data list \<Rightarrow> bool \<Rightarrow> bool \<Rightarrow> string" where
  "sample_joinData vs split quote =
     join_with '' '' (map (\<lambda>d. if quote then sample_quotify (Value d) else Value d) vs)"

definition sample_lineType :: "string \<Rightarrow> data_type \<times> int \<times> string list" where
  "sample_lineType l =
     (if suffix ''() {'' l then (TD_FUNC, 0, [takeWhile (\<lambda>ch. ch \<noteq> CHR ''('') l, l])
      else (TD_UNKNOWN, 0, [l]))"

definition sample_env :: env where
  "sample_env = \<lparr>
     L_VARIABLES = [''pkgver'', ''pkgrel'', ''arch'', ''license'', ''sha256sums''],
     L_FUNCTIONS = [''prepare'', ''build'', ''check'', ''package''],
     U_VARIABLES = (\<lambda>n. if n = ''arch'' then TU_OPTIONAL
                         else if n = ''license'' then TU_MULTIPLEVARQ
                         else if n = ''sha256sums'' then TU_MULTIPLELINES
                         else TU_SINGLEVAR),
     lineType = sample_lineType,
     splitString = (\<lambda>s. [s]),
     quotify = sample_quotify,
     joinData = sample_joinData\<rparr>"



section \<open>Editing a value: \<open>Container.Set\<close>\<close>

lemma Set_out_of_range:
  "idx < 0 \<or> idx \<ge> int (length (Values c)) \<Longrightarrow> Container_Set c idx v = (c, False)"
  by (simp add: Container_Set_def)

lemma Set_false_iff:
  "snd (Container_Set c idx v) = False \<longleftrightarrow> (idx < 0 \<or> idx \<ge> int (length (Values c)))"
  by (simp add: Container_Set_def)

lemma nth_take_drop_Suc:
  "j < length xs - 1 \<Longrightarrow>
     (take n xs @ drop (Suc n) xs) ! j = (if j < n then xs ! j else xs ! Suc j)"
  by (auto simp: nth_append min_def)

text \<open>
  C8. \<open>Container.Set(idx, v)\<close> with \<open>idx\<close> in range and \<open>v\<close> non-empty returns true and
  replaces the text of the value at \<open>idx\<close> by \<open>v\<close>: the sequence keeps its length, the
  value at \<open>idx\<close> keeps its tag and line number, every other value and every other field of
  the container are as before. With \<open>idx\<close> in range and \<open>v\<close> empty it returns true and
  deletes the value at \<open>idx\<close>: the sequence is one shorter, the values before \<open>idx\<close> keep
  their position, the values after it move down by one, and no empty text is stored in
  its place. With \<open>idx\<close> negative or at least the number of values it returns false.
\<close>

theorem C8_Set_replace_delete_notfound:
  fixes c :: Container and idx :: int and v :: string
  defines "n \<equiv> length (Values c)"
  defines "c' \<equiv> fst (Container_Set c idx v)"
  shows "(0 \<le> idx \<and> idx < int n \<and> v \<noteq> [] \<longrightarrow>
            snd (Container_Set c idx v) = True
          \<and> length (Values c') = n
          \<and> Values c' ! nat idx = (Values c ! nat idx)\<lparr>Value := v\<rparr>
          \<and> (\<forall>j < n. j \<noteq> nat idx \<longrightarrow> Values c' ! j = Values c ! j)
          \<and> c' = c\<lparr>Values := Values c'\<rparr>)
       \<and> (0 \<le> idx \<and> idx < int n \<and> v = [] \<longrightarrow>
            snd (Container_Set c idx v) = True
          \<and> length (Values c') = n - 1
          \<and> (\<forall>j < n - 1. Values c' ! j = (if j < nat idx then Values c ! j else Values c ! Suc j))
          \<and> c' = c\<lparr>Values := Values c'\<rparr>)
       \<and> (idx < 0 \<or> idx \<ge> int n \<longrightarrow> Container_Set c idx v = (c, False))"
proof (intro conjI impI)
  assume h: "0 \<le> idx \<and> idx < int n \<and> v \<noteq> []"
  then have eq: "Container_Set c idx v =
      (c\<lparr>Values := (Values c)[nat idx := (Values c ! nat idx)\<lparr>Value := v\<rparr>]\<rparr>, True)"
    by (simp add: Container_Set_def n_def)
  from h have lt: "nat idx < length (Values c)" by (auto simp: n_def nat_less_iff)
  show "snd (Container_Set c idx v) = True" using eq by simp
  show "length (Values c') = n" using eq by (simp add: c'_def n_def)
  show "Values c' ! nat idx = (Values c ! nat idx)\<lparr>Value := v\<rparr>"
    using eq lt by (simp add: c'_def)
  show "\<forall>j < n. j \<noteq> nat idx \<longrightarrow> Values c' ! j = Values c ! j"
    using eq by (simp add: c'_def)
  show "c' = c\<lparr>Values := Values c'\<rparr>" using eq by (simp add: c'_def)
next
  assume h: "0 \<le> idx \<and> idx < int n \<and> v = []"
  then have eq: "Container_Set c idx v =
      (c\<lparr>Values := take (nat idx) (Values c) @ drop (Suc (nat idx)) (Values c)\<rparr>, True)"
    by (simp add: Container_Set_def n_def)
  from h have lt: "nat idx < length (Values c)" by (auto simp: n_def nat_less_iff)
  show "snd (Container_Set c idx v) = True" using eq by simp
  show len: "length (Values c') = n - 1"
    using eq lt by (simp add: c'_def n_def min_def)
  show "\<forall>j < n - 1. Values c' ! j = (if j < nat idx then Values c ! j else Values c ! Suc j)"
    using eq nth_take_drop_Suc [of _ "Values c" "nat idx"] by (simp add: c'_def n_def)
  show "c' = c\<lparr>Values := Values c'\<rparr>" using eq by (simp add: c'_def)
next
  assume "idx < 0 \<or> idx \<ge> int n"
  then show "Container_Set c idx v = (c, False)"
    by (simp add: Set_out_of_range n_def)
qed


theorem C8_Set_witness:
  "snd (Container_Set sample_arch 1 ''any'') = True
   \<and> Values (fst (Container_Set sample_arch 1 ''any'')) = [sample_data ''x86_64'', sample_data ''any'']
   \<and> snd (Container_Set sample_arch 0 []) = True
   \<and> Values (fst (Container_Set sample_arch 0 [])) = [sample_data ''i686'']
   \<and> Container_Set sample_arch 2 ''any'' = (sample_arch, False)
   \<and> Container_Set sample_arch (- 1) [] = (sample_arch, False)"
proof -
  have n: "length (Values sample_arch) = 2" by (simp add: sample_arch_def)
  have r: "(0::int) \<le> 1 \<and> (1::int) < int (length (Values sample_arch)) \<and> ''any'' \<noteq> []"
    by (simp add: n)
  have d: "(0::int) \<le> 0 \<and> (0::int) < int (length (Values sample_arch)) \<and> ([]::string) = []"
    by (simp add: n)
  have o1: "(2::int) < 0 \<or> 2 \<ge> int (length (Values sample_arch))" by (simp add: n)
  have o2: "(- 1::int) < 0 \<or> - 1 \<ge> int (length (Values sample_arch))" by simp
  show ?thesis
    using C8_Set_replace_delete_notfound [where c = sample_arch and idx = 1 and v = "''any''"]
      C8_Set_replace_delete_notfound [where c = sample_arch and idx = 0 and v = "[]"]
      C8_Set_replace_delete_notfound [where c = sample_arch and idx = 2 and v = "''any''"]
      C8_Set_replace_delete_notfound [where c = sample_arch and idx = "- 1" and v = "[]"]
      r d o1 o2
    by (simp add: Container_Set_def sample_arch_def sample_data_def NewData_def)
qed

section \<open>Failed mutations\<close>

lemma Remove_false_iff:
  "snd (Pkgbuild_Remove p k i) = False \<longleftrightarrow>
     (\<forall>lc. map_of p k = Some lc \<longrightarrow> i < 0 \<or> i \<ge> int (length lc))"
  by (auto simp: Pkgbuild_Remove_def split: option.splits)

lemma Remove_false_unchanged:
  "snd (Pkgbuild_Remove p k i) = False \<Longrightarrow> fst (Pkgbuild_Remove p k i) = p"
  by (auto simp: Pkgbuild_Remove_def split: option.splits if_splits)

lemma Set_false_unchanged:
  "snd (Container_Set c idx v) = False \<Longrightarrow> fst (Container_Set c idx v) = c"
  by (auto simp: Container_Set_def split: if_splits)

text \<open>
  C10. Whenever a mutation reports failure the receiver is unchanged.
  \<open>Pkgbuild.Remove(k, i)\<close> returns false exactly when \<open>k\<close> is not a key of the document
  or \<open>i\<close> is negative or at least the length of the list under \<open>k\<close>, and the document it
  leaves is the one it was given, key for key and container for container.
  \<open>Container.Set(idx, v)\<close> returns false exactly when \<open>idx\<close> is negative or at least the
  number of values, and the container it leaves is the one it was given.
\<close>

theorem C10_failure_leaves_receiver_unchanged:
  "(snd (Pkgbuild_Remove p k i) = False \<longleftrightarrow>
      (\<forall>lc. map_of p k = Some lc \<longrightarrow> i < 0 \<or> i \<ge> int (length lc)))
   \<and> (snd (Pkgbuild_Remove p k i) = False \<longrightarrow> fst (Pkgbuild_Remove p k i) = p)
   \<and> (snd (Container_Set c idx v) = False \<longleftrightarrow> (idx < 0 \<or> idx \<ge> int (length (Values c))))
   \<and> (snd (Container_Set c idx v) = False \<longrightarrow> fst (Container_Set c idx v) = c)"
  using Remove_false_iff [of p k i] Remove_false_unchanged [of p k i]
    Set_false_iff [of c idx v] Set_false_unchanged [of c idx v]
  by blast

theorem C10_failure_witness:
  "snd (Pkgbuild_Remove [(''arch'', [sample_arch])] ''arch'' 1) = False
   \<and> fst (Pkgbuild_Remove [(''arch'', [sample_arch])] ''arch'' 1) = [(''arch'', [sample_arch])]
   \<and> snd (Pkgbuild_Remove [(''arch'', [sample_arch])] ''url'' 0) = False
   \<and> fst (Pkgbuild_Remove [(''arch'', [sample_arch])] ''url'' 0) = [(''arch'', [sample_arch])]
   \<and> snd (Container_Set sample_arch 2 ''any'') = False
   \<and> fst (Container_Set sample_arch 2 ''any'') = sample_arch"
proof -
  have a: "snd (Pkgbuild_Remove [(''arch'', [sample_arch])] ''arch'' 1) = False"
    by (simp add: Pkgbuild_Remove_def)
  have b: "snd (Pkgbuild_Remove [(''arch'', [sample_arch])] ''url'' 0) = False"
    by (simp add: Pkgbuild_Remove_def)
  have c: "snd (Container_Set sample_arch 2 ''any'') = False"
    by (simp add: Container_Set_def sample_arch_def)
  show ?thesis
    using a b c
      C10_failure_leaves_receiver_unchanged
        [where p = "[(''arch'', [sample_arch])]" and k = "''arch''" and i = 1
           and c = sample_arch and idx = 2 and v = "''any''"]
      C10_failure_leaves_receiver_unchanged
        [where p = "[(''arch'', [sample_arch])]" and k = "''url''" and i = 0
           and c = sample_arch and idx = 2 and v = "''any''"]
    by simp
qed

section \<open>Inserting containers: \<open>Pkgbuild.Insert\<close>\<close>

lemma map_of_Insert:
  "map_of (Pkgbuild_Insert p cont) k =
     (if [c \<leftarrow> cont. Name c = k] = [] then map_of p k
      else Some (Pkgbuild_get p k @ [c \<leftarrow> cont. Name c = k]))"
proof (induction cont arbitrary: p)
  case Nil
  show ?case by simp
next
  case (Cons c cont)
  show ?case
    by (simp add: Cons.IH update_conv' Pkgbuild_get_def split: option.splits)
qed

lemma get_Insert:
  "Pkgbuild_get (Pkgbuild_Insert p cont) k = Pkgbuild_get p k @ [c \<leftarrow> cont. Name c = k]"
  by (simp add: Pkgbuild_get_def [of "Pkgbuild_Insert p cont"] map_of_Insert)
     (simp add: Pkgbuild_get_def)

lemma get_foldl_Insert:
  "Pkgbuild_get (foldl Pkgbuild_Insert p conts) k =
     Pkgbuild_get p k @ [c \<leftarrow> concat conts. Name c = k]"
  by (induction conts arbitrary: p) (simp_all add: get_Insert)

lemma map_of_foldl_Insert_None:
  "map_of (foldl Pkgbuild_Insert p conts) k = None \<longleftrightarrow>
     map_of p k = None \<and> [c \<leftarrow> concat conts. Name c = k] = []"
  by (induction conts arbitrary: p) (auto simp: map_of_Insert)

lemma map_of_foldl_Insert_empty:
  "map_of (foldl Pkgbuild_Insert NewPkgbuild conts) k =
     (if [c \<leftarrow> concat conts. Name c = k] = [] then None
      else Some [c \<leftarrow> concat conts. Name c = k])"
proof (cases "map_of (foldl Pkgbuild_Insert NewPkgbuild conts) k")
  case None
  then show ?thesis
    using map_of_foldl_Insert_None [of NewPkgbuild conts k] by simp
next
  case (Some lc)
  then have ne: "[c \<leftarrow> concat conts. Name c = k] \<noteq> []"
    using map_of_foldl_Insert_None [of NewPkgbuild conts k] by (simp add: NewPkgbuild_def)
  have "Pkgbuild_get (foldl Pkgbuild_Insert NewPkgbuild conts) k = lc"
    using Some by (simp add: Pkgbuild_get_def)
  then have "lc = [c \<leftarrow> concat conts. Name c = k]"
    by (simp add: get_foldl_Insert) (simp add: Pkgbuild_get_def NewPkgbuild_def)
  then show ?thesis using Some ne by simp
qed

lemma keyed_by_name_iff:
  "distinct (map fst p) \<Longrightarrow>
     keyed_by_name p \<longleftrightarrow> (\<forall>k lc. map_of p k = Some lc \<longrightarrow> (\<forall>c \<in> set lc. Name c = k))"
  by (auto simp: keyed_by_name_def list_all_iff dest: map_of_SomeD)

lemma distinct_Insert:
  "distinct (map fst p) \<Longrightarrow> distinct (map fst (Pkgbuild_Insert p cont))"
  by (induction cont arbitrary: p) (simp_all add: distinct_update split: option.splits)

lemma Insert_keeps_names:
  assumes "\<forall>k lc. map_of p k = Some lc \<longrightarrow> (\<forall>c \<in> set lc. Name c = k)"
  shows "\<forall>k lc. map_of (Pkgbuild_Insert p cont) k = Some lc \<longrightarrow> (\<forall>c \<in> set lc. Name c = k)"
proof (intro allI impI ballI)
  fix k lc c
  assume l: "map_of (Pkgbuild_Insert p cont) k = Some lc" and c: "c \<in> set lc"
  show "Name c = k"
  proof (cases "[c \<leftarrow> cont. Name c = k] = []")
    case True
    then have "map_of p k = Some lc" using l by (simp add: map_of_Insert)
    then show ?thesis using assms c by blast
  next
    case False
    then have lc: "lc = Pkgbuild_get p k @ [c \<leftarrow> cont. Name c = k]"
      using l by (simp add: map_of_Insert)
    show ?thesis
    proof (cases "map_of p k")
      case None
      then show ?thesis using lc c by (auto simp: Pkgbuild_get_def)
    next
      case (Some old)
      then have "\<forall>c \<in> set old. Name c = k" using assms by blast
      then show ?thesis using lc c Some by (auto simp: Pkgbuild_get_def)
    qed
  qed
qed

text \<open>
  C7. \<open>Pkgbuild.Insert\<close> appends each given container to the list stored under that
  container's own name, creating the list when the key is absent: after the call the list
  under a key \<open>k\<close> is the list that was there before, untouched, followed by the given
  containers named \<open>k\<close> in the order given, and a key that names none of the given
  containers keeps whatever it had. Hence a document in which every container is stored
  under its own name stays so, and the document built from the empty one by any sequence
  of calls holds, under each key \<open>k\<close>, exactly the inserted containers named \<open>k\<close>, in
  insertion order.
\<close>

theorem C7_Insert_appends_under_own_name:
  "map_of (Pkgbuild_Insert p cont) k =
     (if [c \<leftarrow> cont. Name c = k] = [] then map_of p k
      else Some (Pkgbuild_get p k @ [c \<leftarrow> cont. Name c = k]))
   \<and> ((\<forall>k lc. map_of p k = Some lc \<longrightarrow> (\<forall>c \<in> set lc. Name c = k)) \<longrightarrow>
      (\<forall>k lc. map_of (Pkgbuild_Insert p cont) k = Some lc \<longrightarrow> (\<forall>c \<in> set lc. Name c = k)))
   \<and> map_of (foldl Pkgbuild_Insert NewPkgbuild conts) k =
       (if [c \<leftarrow> concat conts. Name c = k] = [] then None
        else Some [c \<leftarrow> concat conts. Name c = k])"
proof (intro conjI)
  show "map_of (Pkgbuild_Insert p cont) k =
     (if [c \<leftarrow> cont. Name c = k] = [] then map_of p k
      else Some (Pkgbuild_get p k @ [c \<leftarrow> cont. Name c = k]))"
    by (rule map_of_Insert)
  show "(\<forall>k lc. map_of p k = Some lc \<longrightarrow> (\<forall>c \<in> set lc. Name c = k)) \<longrightarrow>
      (\<forall>k lc. map_of (Pkgbuild_Insert p cont) k = Some lc \<longrightarrow> (\<forall>c \<in> set lc. Name c = k))"
    by (rule impI) (rule Insert_keeps_names)
  show "map_of (foldl Pkgbuild_Insert NewPkgbuild conts) k =
       (if [c \<leftarrow> concat conts. Name c = k] = [] then None
        else Some [c \<leftarrow> concat conts. Name c = k])"
    by (rule map_of_foldl_Insert_empty)
qed

theorem C7_Insert_witness:
  "map_of (Pkgbuild_Insert [(''pkgver'', [sample_pkgver])] [sample_pkgrel, sample_pkgver]) ''pkgver''
     = Some [sample_pkgver, sample_pkgver]
   \<and> map_of (Pkgbuild_Insert [(''pkgver'', [sample_pkgver])] [sample_pkgrel, sample_pkgver]) ''pkgrel''
     = Some [sample_pkgrel]
   \<and> keyed_by_name (Pkgbuild_Insert [(''pkgver'', [sample_pkgver])] [sample_pkgrel, sample_pkgver])"
proof -
  let ?p = "[(''pkgver'', [sample_pkgver])]"
  let ?cs = "[sample_pkgrel, sample_pkgver]"
  note T = C7_Insert_appends_under_own_name [where p = ?p and cont = ?cs and conts = "[]"]
  have inv: "\<forall>k lc. map_of ?p k = Some lc \<longrightarrow> (\<forall>c \<in> set lc. Name c = k)"
    by (simp add: sample_pkgver_def)
  have a: "map_of (Pkgbuild_Insert ?p ?cs) ''pkgver'' = Some [sample_pkgver, sample_pkgver]"
    using conjunct1 [OF T [where k = "''pkgver''"]]
    by (simp add: Pkgbuild_get_def sample_pkgver_def sample_pkgrel_def)
  have b: "map_of (Pkgbuild_Insert ?p ?cs) ''pkgrel'' = Some [sample_pkgrel]"
    using conjunct1 [OF T [where k = "''pkgrel''"]]
    by (simp add: Pkgbuild_get_def sample_pkgver_def sample_pkgrel_def)
  have c: "\<forall>k lc. map_of (Pkgbuild_Insert ?p ?cs) k = Some lc \<longrightarrow> (\<forall>c \<in> set lc. Name c = k)"
    by (rule mp [OF conjunct1 [OF conjunct2 [OF T [where k = "[]"]]] inv])
  have d: "distinct (map fst (Pkgbuild_Insert ?p ?cs))"
    by (rule distinct_Insert) simp
  have e: "keyed_by_name (Pkgbuild_Insert ?p ?cs)"
    using c by (simp only: keyed_by_name_iff [OF d])
  show ?thesis using a b e by (intro conjI)
qed

section \<open>The verbatim style\<close>

lemma lines_loop_append:
  "lines_loop (xs @ ys) st = lines_loop ys (lines_loop xs st)"
proof (induction xs arbitrary: st)
  case Nil
  show ?case by (cases st) simp
next
  case (Cons x xs)
  show ?case by (cases st) (simp add: Cons.IH Let_def)
qed

lemma verbatim_spec_Nil: "verbatim_spec [] = []"
  by (simp add: verbatim_spec_def)

lemma verbatim_spec_snoc:
  "verbatim_spec (vs @ [v]) =
     verbatim_spec vs @ (if Value v = [] \<and> vs \<noteq> [] \<and> Value (last vs) = [] then [] else [Value v])"
proof -
  let ?keep = "\<lambda>ws i. \<not> (Value (ws ! i) = [] \<and> 0 < i \<and> Value (ws ! (i - 1)) = [])"
  have f: "filter (?keep (vs @ [v])) [0 ..< length vs] = filter (?keep vs) [0 ..< length vs]"
    by (rule filter_cong) (auto simp: nth_append)
  have m: "map (\<lambda>i. Value ((vs @ [v]) ! i)) (filter (?keep vs) [0 ..< length vs])
         = map (\<lambda>i. Value (vs ! i)) (filter (?keep vs) [0 ..< length vs])"
    by (rule map_cong) (auto simp: nth_append)
  have l: "vs \<noteq> [] \<Longrightarrow> (vs @ [v]) ! (length vs - 1) = last vs"
    by (simp add: nth_append last_conv_nth)
  have k: "?keep (vs @ [v]) (length vs) \<longleftrightarrow> \<not> (Value v = [] \<and> vs \<noteq> [] \<and> Value (last vs) = [])"
    using l by (cases "vs = []") auto
  show ?thesis
    unfolding verbatim_spec_def using f m k by simp
qed

lemma lines_loop_spec:
  "lines_loop vs ([], False) = (verbatim_spec vs, vs \<noteq> [] \<and> Value (last vs) = [])"
proof (induction vs rule: rev_induct)
  case Nil
  show ?case by (simp add: verbatim_spec_Nil)
next
  case (snoc v vs)
  show ?case
    by (simp add: lines_loop_append snoc.IH verbatim_spec_snoc Data_String_def Let_def)
qed

lemma UnparseType_other:
  "Type c \<noteq> TC_VARIABLE \<Longrightarrow> Type c \<noteq> TC_UVARIABLE \<Longrightarrow> Container_UnparseType env c = TU_LINES"
  by (cases "Type c") (simp_all add: Container_UnparseType_def)

lemma Lines_TU_LINES:
  "Container_UnparseType env c = TU_LINES \<Longrightarrow> Container_Lines env c = verbatim_spec (Values c)"
  by (simp add: Container_Lines_def lines_loop_spec)

text \<open>
  C6. A container rendered with the verbatim style, which is the style of every category
  other than recognized and unrecognized variable, yields the raw text of each of its
  values as a line of its own, in sequence order, except a value whose text is empty and
  which immediately follows a value whose text is empty: a run of blank lines comes out
  as one blank line.
\<close>

theorem C6_verbatim_collapses_blank_runs:
  "(Container_UnparseType env c = TU_LINES \<longrightarrow>
      Container_Lines env c = verbatim_spec (Values c))
   \<and> (Type c \<noteq> TC_VARIABLE \<and> Type c \<noteq> TC_UVARIABLE \<longrightarrow>
      Container_UnparseType env c = TU_LINES)"
  using Lines_TU_LINES [of env c] UnparseType_other [of c env] by blast

theorem C6_verbatim_witness:
  "Container_UnparseType sample_env sample_blank = TU_LINES
   \<and> Container_Lines sample_env sample_blank = [''# a'', [], ''# b'']"
proof -
  have t: "Type sample_blank \<noteq> TC_VARIABLE \<and> Type sample_blank \<noteq> TC_UVARIABLE"
    by (simp add: sample_blank_def)
  note T = C6_verbatim_collapses_blank_runs [of sample_env sample_blank]
  have u: "Container_UnparseType sample_env sample_blank = TU_LINES"
    by (rule mp [OF conjunct2 [OF T] t])
  have l: "Container_Lines sample_env sample_blank = verbatim_spec (Values sample_blank)"
    by (rule mp [OF conjunct1 [OF T] u])
  have v: "verbatim_spec (Values sample_blank) = [''# a'', [], ''# b'']"
    by (simp add: verbatim_spec_def sample_blank_def NewData_def upt_rec)
  show ?thesis using u l v by simp
qed

section \<open>The one-value-per-line style\<close>

lemma multiplelines_loop_eq:
  "multiplelines_loop env t ds (out, s) =
     (out @ butlast (s # map (\<lambda>d. t @ Data_Quote env d) ds),
      last (s # map (\<lambda>d. t @ Data_Quote env d) ds))"
  by (induction ds arbitrary: out s) simp_all

lemma Lines_TU_MULTIPLELINES_Cons:
  assumes "Container_UnparseType env c = TU_MULTIPLELINES" and "Values c = d0 # rest"
  defines "t \<equiv> replicate (RuneCountInString (Name c @ ''=('')) CHR '' ''"
  defines "L \<equiv> (Name c @ ''=('' @ Data_Quote env d0) # map (\<lambda>d. t @ Data_Quote env d) rest"
  shows "Container_Lines env c = butlast L @ [last L @ '')'']"
  using assms(1,2)
  by (simp add: Container_Lines_def Let_def multiplelines_loop_eq L_def t_def
           del: butlast.simps last.simps)

lemma multiplelines_spec_eq:
  defines "L \<equiv> \<lambda>env name d0 rest. (name @ ''=('' @ quotify env (Value d0))
      # map (\<lambda>d. replicate (RuneCountInString (name @ ''=('')) CHR '' '' @ quotify env (Value d)) rest"
  shows "multiplelines_spec env name (d0 # rest) =
           butlast (L env name d0 rest) @ [last (L env name d0 rest) @ '')'']"
proof (rule nth_equalityI)
  show "length (multiplelines_spec env name (d0 # rest)) =
        length (butlast (L env name d0 rest) @ [last (L env name d0 rest) @ '')''])"
    by (simp add: multiplelines_spec_def L_def)
next
  fix j assume "j < length (multiplelines_spec env name (d0 # rest))"
  then have j: "j < Suc (length rest)" by (simp add: multiplelines_spec_def)
  have len: "length (L env name d0 rest) = Suc (length rest)" by (simp add: L_def)
  have nthL: "L env name d0 rest ! j =
      (if j = 0 then name @ ''=('' else replicate (RuneCountInString (name @ ''=('')) CHR '' '')
       @ quotify env (Value ((d0 # rest) ! j))"
    using j by (cases j) (simp_all add: L_def)
  have ne: "L env name d0 rest \<noteq> []" by (simp add: L_def)
  have lhs: "multiplelines_spec env name (d0 # rest) ! j =
      (if j = 0 then name @ ''=('' else replicate (RuneCountInString (name @ ''=('')) CHR '' '')
       @ quotify env (Value ((d0 # rest) ! j)) @ (if j = length rest then '')'' else [])"
    using j by (simp add: multiplelines_spec_def del: upt_Suc)
  have rhs: "(butlast (L env name d0 rest) @ [last (L env name d0 rest) @ '')'']) ! j
      = L env name d0 rest ! j @ (if j = length rest then '')'' else [])"
  proof (cases "j = length rest")
    case True
    have "last (L env name d0 rest) = L env name d0 rest ! j"
      using True len ne by (simp add: last_conv_nth)
    then show ?thesis using True len by (simp add: nth_append)
  next
    case False
    then have "j < length rest" using j by simp
    then show ?thesis using len by (simp add: nth_append nth_butlast)
  qed
  show "multiplelines_spec env name (d0 # rest) ! j =
        (butlast (L env name d0 rest) @ [last (L env name d0 rest) @ '')'']) ! j"
    by (simp only: lhs rhs nthL append_assoc)
qed

lemma Lines_TU_MULTIPLELINES:
  assumes "Container_UnparseType env c = TU_MULTIPLELINES"
  shows "Container_Lines env c =
           (if Values c = [] then [Name c @ ''=()''] else multiplelines_spec env (Name c) (Values c))"
proof (cases "Values c")
  case Nil
  then show ?thesis using assms by (simp add: Container_Lines_def)
next
  case (Cons d0 rest)
  show ?thesis
    using Lines_TU_MULTIPLELINES_Cons [OF assms Cons] multiplelines_spec_eq [of env "Name c" d0 rest]
    by (simp add: Cons Data_Quote_def del: butlast.simps last.simps)
qed

lemma rune_size_ascii: "(of_char c :: nat) < 0x80 \<Longrightarrow> rune_size c cs = 1"
  by (simp add: rune_size_def)

lemma RuneCountInString_ascii:
  "\<forall>ch \<in> set s. (of_char ch :: nat) < 0x80 \<Longrightarrow> RuneCountInString s = length s"
  by (induction s) (simp_all add: rune_size_ascii)

lemma length_multiplelines_spec: "length (multiplelines_spec env name vs) = length vs"
  by (simp add: multiplelines_spec_def)


text \<open>
  C4. A container rendered with the one-value-per-line style and holding \<open>n \<ge> 1\<close> values
  produces exactly \<open>n\<close> lines: the first is \<open>name=(\<close> immediately followed by the first
  quoted value, every later value stands on a line of its own after as many spaces as the
  opening text \<open>name=(\<close> has runes (for an ASCII name, the length of the name plus two),
  and the closing parenthesis is appended to the line of the last value. With no value
  it produces the single line \<open>name=()\<close>.
\<close>

theorem C4_multiplelines_layout:
  assumes "Container_UnparseType env c = TU_MULTIPLELINES"
  shows "(Values c = [] \<longrightarrow> Container_Lines env c = [Name c @ ''=()''])
       \<and> (Values c \<noteq> [] \<longrightarrow>
            Container_Lines env c = multiplelines_spec env (Name c) (Values c)
          \<and> length (Container_Lines env c) = length (Values c))
       \<and> ((\<forall>ch \<in> set (Name c). (of_char ch :: nat) < 0x80) \<longrightarrow>
            RuneCountInString (Name c @ ''=('') = length (Name c) + 2)"
proof (intro conjI impI)
  assume "Values c = []"
  then show "Container_Lines env c = [Name c @ ''=()'']"
    using Lines_TU_MULTIPLELINES [OF assms] by simp
next
  assume "Values c \<noteq> []"
  then show "Container_Lines env c = multiplelines_spec env (Name c) (Values c)"
    using Lines_TU_MULTIPLELINES [OF assms] by simp
  then show "length (Container_Lines env c) = length (Values c)"
    by (simp add: length_multiplelines_spec)
next
  assume "\<forall>ch \<in> set (Name c). (of_char ch :: nat) < 0x80"
  then have "\<forall>ch \<in> set (Name c @ ''=(''). (of_char ch :: nat) < 0x80" by auto
  then show "RuneCountInString (Name c @ ''=('') = length (Name c) + 2"
    by (simp only: RuneCountInString_ascii) simp
qed

theorem C4_multiplelines_witness:
  "Container_Lines sample_env sample_sums =
     [''sha256sums=('' @ sample_quotify ''aa'',
      replicate 12 CHR '' '' @ sample_quotify ''bb'',
      replicate 12 CHR '' '' @ sample_quotify ''cc'' @ '')'']
   \<and> Container_Lines sample_env (sample_sums\<lparr>Values := []\<rparr>) = [''sha256sums=()'']"
proof -
  have u: "Container_UnparseType sample_env sample_sums = TU_MULTIPLELINES"
    by (simp add: Container_UnparseType_def sample_env_def sample_sums_def)
  have u': "Container_UnparseType sample_env (sample_sums\<lparr>Values := []\<rparr>) = TU_MULTIPLELINES"
    by (simp add: Container_UnparseType_def sample_env_def sample_sums_def)
  have ne: "Values sample_sums \<noteq> []" by (simp add: sample_sums_def)
  have a: "\<forall>ch \<in> set (Name sample_sums). (of_char ch :: nat) < 0x80"
    by (simp add: sample_sums_def)
  note T = C4_multiplelines_layout [OF u]
  have w: "RuneCountInString (Name sample_sums @ ''=('') = 12"
    using mp [OF conjunct2 [OF conjunct2 [OF T]] a] by (simp add: sample_sums_def)
  have l: "Container_Lines sample_env sample_sums
         = multiplelines_spec sample_env (Name sample_sums) (Values sample_sums)"
    using mp [OF conjunct1 [OF conjunct2 [OF T]] ne] by simp
  have e: "Container_Lines sample_env (sample_sums\<lparr>Values := []\<rparr>) = [''sha256sums=()'']"
    using mp [OF conjunct1 [OF C4_multiplelines_layout [OF u']]] by (simp add: sample_sums_def)
  have n: "Name sample_sums = ''sha256sums''" by (simp add: sample_sums_def)
  have s: "multiplelines_spec sample_env (Name sample_sums) (Values sample_sums) =
     [''sha256sums=('' @ sample_quotify ''aa'',
      replicate 12 CHR '' '' @ sample_quotify ''bb'',
      replicate 12 CHR '' '' @ sample_quotify ''cc'' @ '')'']"
    unfolding multiplelines_spec_def w
    by (simp add: n sample_sums_def sample_env_def NewData_def upt_rec del: replicate.simps replicate_Suc)
  show ?thesis using l s e by simp
qed

section \<open>The list styles of recognized variables\<close>

lemma UnparseType_VARIABLE:
  "Type c = TC_VARIABLE \<Longrightarrow> Container_UnparseType env c = U_VARIABLES env (Name c)"
  by (simp add: Container_UnparseType_def)

text \<open>
  C3. A recognized-variable container whose style is one of the two collapse-to-scalar
  list styles is rendered as the one line \<open>name=(...)\<close> when it has more than one value and
  as the one line \<open>name=...\<close>, with no parentheses added, when it has exactly one; a
  container whose style is one of the two always-parenthesized styles is rendered as
  \<open>name=(...)\<close> whatever the number of its values. The text after \<open>=\<close> or between the
  parentheses is what \<open>joinData\<close> makes of the values.
\<close>

theorem C3_scalar_collapse:
  assumes "Type c = TC_VARIABLE"
  shows "(U_VARIABLES env (Name c) = TU_OPTIONAL \<longrightarrow>
            (length (Values c) > 1 \<longrightarrow>
               Container_Lines env c = [Name c @ ''=('' @ joinData env (Values c) True True @ '')''])
          \<and> (length (Values c) = 1 \<longrightarrow>
               Container_Lines env c = [Name c @ ''='' @ joinData env (Values c) False False]))
       \<and> (U_VARIABLES env (Name c) = TU_OPTIONALQ \<longrightarrow>
            (length (Values c) > 1 \<longrightarrow>
               Container_Lines env c = [Name c @ ''=('' @ joinData env (Values c) True True @ '')''])
          \<and> (length (Values c) = 1 \<longrightarrow>
               Container_Lines env c = [Name c @ ''='' @ joinData env (Values c) True True]))
       \<and> (U_VARIABLES env (Name c) = TU_MULTIPLEVAR \<longrightarrow>
            Container_Lines env c = [Name c @ ''=('' @ joinData env (Values c) True False @ '')''])
       \<and> (U_VARIABLES env (Name c) = TU_MULTIPLEVARQ \<longrightarrow>
            Container_Lines env c = [Name c @ ''=('' @ joinData env (Values c) True True @ '')''])"
  using UnparseType_VARIABLE [OF assms, of env]
  by (simp add: Container_Lines_def)

theorem C3_scalar_collapse_witness:
  "Container_Lines sample_env sample_arch
     = [''arch=('' @ sample_quotify ''x86_64'' @ '' '' @ sample_quotify ''i686'' @ '')'']
   \<and> Container_Lines sample_env (sample_arch\<lparr>Values := [sample_data ''x86_64'']\<rparr>) = [''arch=x86_64'']
   \<and> Container_Lines sample_env (sample_arch\<lparr>Name := ''license'', Values := [sample_data ''GPL'']\<rparr>)
     = [''license=('' @ sample_quotify ''GPL'' @ '')'']"
proof -
  let ?one = "sample_arch\<lparr>Values := [sample_data ''x86_64'']\<rparr>"
  let ?lic = "sample_arch\<lparr>Name := ''license'', Values := [sample_data ''GPL'']\<rparr>"
  have t: "Type sample_arch = TC_VARIABLE" "Type ?one = TC_VARIABLE" "Type ?lic = TC_VARIABLE"
    by (simp_all add: sample_arch_def)
  have s: "U_VARIABLES sample_env (Name sample_arch) = TU_OPTIONAL"
    "U_VARIABLES sample_env (Name ?one) = TU_OPTIONAL"
    "U_VARIABLES sample_env (Name ?lic) = TU_MULTIPLEVARQ"
    by (simp_all add: sample_arch_def sample_env_def)
  have n: "length (Values sample_arch) > 1" "length (Values ?one) = 1"
    by (simp_all add: sample_arch_def)
  have a: "Container_Lines sample_env sample_arch
      = [Name sample_arch @ ''=('' @ joinData sample_env (Values sample_arch) True True @ '')'']"
    using C3_scalar_collapse [OF t(1), of sample_env] s(1) n(1) by blast
  have b: "Container_Lines sample_env ?one
      = [Name ?one @ ''='' @ joinData sample_env (Values ?one) False False]"
    using C3_scalar_collapse [OF t(2), of sample_env] s(2) n(2) by blast
  have c: "Container_Lines sample_env ?lic
      = [Name ?lic @ ''=('' @ joinData sample_env (Values ?lic) True True @ '')'']"
    using C3_scalar_collapse [OF t(3), of sample_env] s(3) by blast
  show ?thesis
    unfolding a b c
    by (simp add: sample_arch_def sample_env_def sample_joinData_def sample_data_def NewData_def)
qed

section \<open>Containers without values\<close>










section \<open>Containers of function headers\<close>






end
